theory Spec2Isabelle
  imports Main
begin

section \<open>The snake game of \<^verbatim>\<open>snake_game.py\<close>\<close>

text \<open>
  The simulation core of the program is embedded: the classes \<^verbatim>\<open>Snake\<close> and
  \<^verbatim>\<open>Food\<close> and the methods of \<^verbatim>\<open>GameBoard\<close> that change the game
  (\<^verbatim>\<open>calculate_dimensions\<close>, \<^verbatim>\<open>resizeEvent\<close>, \<^verbatim>\<open>init_game\<close>,
  \<^verbatim>\<open>update_game\<close>, \<^verbatim>\<open>restart_game\<close>). Painting, focus handling and the
  emission of the \<^verbatim>\<open>game_over\<close> signal do not change the game and are left out;
  the timer is kept as the flag \<open>timer_active\<close>.

  Python integers are unbounded: \<open>int\<close>. Python's \<^verbatim>\<open>//\<close> rounds towards minus
  infinity, as \<open>div\<close> on \<open>int\<close> does. Exceptions are values of the type \<open>error\<close>.
\<close>

subsection \<open>Values\<close>

type_synonym cell = "int \<times> int"

datatype error = IndexError | ValueError | ZeroDivisionError

definition MIN_CELL_SIZE :: int where "MIN_CELL_SIZE = 15"
definition MAX_CELL_SIZE :: int where "MAX_CELL_SIZE = 35"
definition PREFERRED_CELL_SIZE :: int where "PREFERRED_CELL_SIZE = 24"
definition MIN_GRID_SIZE :: int where "MIN_GRID_SIZE = 15"

definition UP :: cell where "UP = (0, -1)"
definition DOWN :: cell where "DOWN = (0, 1)"
definition LEFT :: cell where "LEFT = (-1, 0)"
definition RIGHT :: cell where "RIGHT = (1, 0)"

definition DIRECTIONS :: "cell list" where
  "DIRECTIONS = [UP, DOWN, LEFT, RIGHT]"

subsection \<open>The random source\<close>

text \<open>
  \<^verbatim>\<open>random.randint(a, b)\<close> returns some \<open>N\<close> with \<open>a \<le> N \<le> b\<close> and raises
  \<^verbatim>\<open>ValueError\<close> when \<open>a > b\<close>. The state of the generator is a tape of raw
  draws, \<open>t 0\<close> the next one; a call consumes one draw and reduces it into the range.
  Every value of the range is the result for some tape, so a statement about all
  tapes is a statement about every outcome of the generator.
\<close>

type_synonym rand = "nat \<Rightarrow> nat"

definition randint :: "int \<Rightarrow> int \<Rightarrow> rand \<Rightarrow> error + int \<times> rand" where
  "randint a b t =
     (if a > b then Inl ValueError
      else Inr (a + int (t 0) mod (b - a + 1), \<lambda>n. t (Suc n)))"

subsection \<open>class Snake\<close>

record Snake =
  body :: "cell list"
  direction :: cell
  grow :: bool
  snake_grid_width :: int
  snake_grid_height :: int

definition Snake_init :: "int \<Rightarrow> int \<Rightarrow> Snake" where
  "Snake_init grid_w grid_h =
     (let start_x = grid_w div 2;
          start_y = grid_h div 2
      in \<lparr>body = [(start_x, start_y), (start_x - 1, start_y), (start_x - 2, start_y)],
          direction = RIGHT,
          grow = False,
          snake_grid_width = grid_w,
          snake_grid_height = grid_h\<rparr>)"

text \<open>
  \<^verbatim>\<open>move\<close>: \<^verbatim>\<open>self.body[0]\<close> raises \<^verbatim>\<open>IndexError\<close> on an empty body;
  \<^verbatim>\<open>insert(0, new_head)\<close> prepends; \<^verbatim>\<open>pop()\<close> removes the last element of the
  list that then has at least one element.
\<close>

definition move :: "Snake \<Rightarrow> error + Snake" where
  "move s =
     (case body s of
        [] \<Rightarrow> Inl IndexError
      | (head_x, head_y) # _ \<Rightarrow>
          (let new_head = (head_x + fst (direction s), head_y + snd (direction s));
               b = new_head # body s
           in if \<not> grow s then Inr (s\<lparr>body := butlast b\<rparr>)
              else Inr (s\<lparr>body := b, grow := False\<rparr>)))"

definition change_direction :: "Snake \<Rightarrow> cell \<Rightarrow> Snake" where
  "change_direction s new_direction =
     (if (fst (direction s) * -1, snd (direction s) * -1) \<noteq> new_direction
      then s\<lparr>direction := new_direction\<rparr>
      else s)"

definition check_collision :: "Snake \<Rightarrow> error + bool" where
  "check_collision s =
     (case body s of
        [] \<Rightarrow> Inl IndexError
      | (head_x, head_y) # rest \<Rightarrow>
          (if head_x < 0 \<or> head_x \<ge> snake_grid_width s \<or>
              head_y < 0 \<or> head_y \<ge> snake_grid_height s
           then Inr True
           else if (head_x, head_y) \<in> set rest then Inr True
           else Inr False))"

definition eat_food :: "Snake \<Rightarrow> Snake" where
  "eat_food s = s\<lparr>grow := True\<rparr>"

definition Snake_update_grid_size :: "Snake \<Rightarrow> int \<Rightarrow> int \<Rightarrow> Snake" where
  "Snake_update_grid_size s new_grid_width new_grid_height =
     s\<lparr>snake_grid_width := new_grid_width, snake_grid_height := new_grid_height\<rparr>"

subsection \<open>class Food\<close>

record Food =
  food_grid_width :: int
  food_grid_height :: int
  position :: cell

text \<open>
  \<^verbatim>\<open>generate_position\<close> reads only the two grid fields of the object, which
  \<^verbatim>\<open>__init__\<close> sets before it calls the method; they are its arguments here.
\<close>

definition generate_position :: "int \<Rightarrow> int \<Rightarrow> rand \<Rightarrow> error + cell \<times> rand" where
  "generate_position grid_w grid_h t =
     (case randint 0 (grid_w - 1) t of
        Inl e \<Rightarrow> Inl e
      | Inr (x, t1) \<Rightarrow>
          (case randint 0 (grid_h - 1) t1 of
             Inl e \<Rightarrow> Inl e
           | Inr (y, t2) \<Rightarrow> Inr ((x, y), t2)))"

definition Food_init :: "int \<Rightarrow> int \<Rightarrow> rand \<Rightarrow> error + Food \<times> rand" where
  "Food_init grid_w grid_h t =
     (case generate_position grid_w grid_h t of
        Inl e \<Rightarrow> Inl e
      | Inr (p, t1) \<Rightarrow>
          Inr (\<lparr>food_grid_width = grid_w, food_grid_height = grid_h, position = p\<rparr>, t1))"

text \<open>
  \<^verbatim>\<open>respawn\<close> is a \<^verbatim>\<open>while True\<close> loop that ends only at a drawn cell outside
  the body: not returning is the value \<open>None\<close>.
\<close>

partial_function (option) respawn ::
  "Food \<Rightarrow> cell list \<Rightarrow> rand \<Rightarrow> (error + Food \<times> rand) option" where
  "respawn f snake_body t =
     (case generate_position (food_grid_width f) (food_grid_height f) t of
        Inl e \<Rightarrow> Some (Inl e)
      | Inr pt \<Rightarrow>
          (if fst pt \<notin> set snake_body then Some (Inr (f\<lparr>position := fst pt\<rparr>, snd pt))
           else respawn (f\<lparr>position := fst pt\<rparr>) snake_body (snd pt)))"

definition Food_update_grid_size ::
  "Food \<Rightarrow> int \<Rightarrow> int \<Rightarrow> rand \<Rightarrow> error + Food \<times> rand" where
  "Food_update_grid_size f new_grid_width new_grid_height t =
     (case generate_position new_grid_width new_grid_height t of
        Inl e \<Rightarrow> Inl e
      | Inr (p, t1) \<Rightarrow>
          Inr (f\<lparr>food_grid_width := new_grid_width,
                 food_grid_height := new_grid_height,
                 position := p\<rparr>, t1))"

subsection \<open>class GameBoard\<close>

text \<open>
  The constructor calls \<^verbatim>\<open>init_game\<close> before any event can arrive, so the
  attributes \<^verbatim>\<open>snake\<close>, \<^verbatim>\<open>food\<close>, \<^verbatim>\<open>score\<close> and \<^verbatim>\<open>game_active\<close>
  exist in every board an event handler sees: the test
  \<^verbatim>\<open>hasattr(self, 'snake') and hasattr(self, 'food')\<close> of \<^verbatim>\<open>resizeEvent\<close> is
  true there, and its \<^verbatim>\<open>else\<close> branch is never taken.
\<close>

record GameBoard =
  cell_size :: int
  grid_width :: int
  grid_height :: int
  board_width :: int
  board_height :: int
  snake :: Snake
  food :: Food
  score :: int
  game_active :: bool
  timer_active :: bool

definition floordiv :: "int \<Rightarrow> int \<Rightarrow> error + int" where
  "floordiv a b = (if b = 0 then Inl ZeroDivisionError else Inr (a div b))"

definition calculate_dimensions :: "int \<Rightarrow> int \<Rightarrow> error + int \<times> int \<times> int" where
  "calculate_dimensions width height =
     (let available_width = width - 4;
          available_height = height - 4
      in (case floordiv available_width MIN_CELL_SIZE of Inl e \<Rightarrow> Inl e | Inr mgw0 \<Rightarrow>
         (case floordiv available_height MIN_CELL_SIZE of Inl e \<Rightarrow> Inl e | Inr mgh0 \<Rightarrow>
         (let max_grid_width = max mgw0 MIN_GRID_SIZE;
              max_grid_height = max mgh0 MIN_GRID_SIZE
          in (case floordiv available_width max_grid_width of Inl e \<Rightarrow> Inl e | Inr cell_size_w \<Rightarrow>
             (case floordiv available_height max_grid_height of Inl e \<Rightarrow> Inl e | Inr cell_size_h \<Rightarrow>
             (let cell_size0 = min cell_size_w cell_size_h;
                  cell_size1 = max MIN_CELL_SIZE (min MAX_CELL_SIZE cell_size0)
              in (case floordiv available_width cell_size1 of Inl e \<Rightarrow> Inl e | Inr gw0 \<Rightarrow>
                 (case floordiv available_height cell_size1 of Inl e \<Rightarrow> Inl e | Inr gh0 \<Rightarrow>
                 Inr (cell_size1, max gw0 MIN_GRID_SIZE, max gh0 MIN_GRID_SIZE))))))))))"

definition init_game :: "GameBoard \<Rightarrow> rand \<Rightarrow> error + GameBoard \<times> rand" where
  "init_game g t =
     (case Food_init (grid_width g) (grid_height g) t of
        Inl e \<Rightarrow> Inl e
      | Inr (f, t1) \<Rightarrow>
          Inr (g\<lparr>snake := Snake_init (grid_width g) (grid_height g),
                 food := f,
                 score := 0,
                 game_active := True\<rparr>, t1))"

text \<open>
  \<^verbatim>\<open>GameBoard.__init__\<close>: preferred cell size, the minimum grid, then
  \<^verbatim>\<open>init_game\<close> and the start of the timer.
\<close>

definition GameBoard_init :: "rand \<Rightarrow> error + GameBoard \<times> rand" where
  "GameBoard_init t =
     (case Food_init MIN_GRID_SIZE MIN_GRID_SIZE t of
        Inl e \<Rightarrow> Inl e
      | Inr (f, t1) \<Rightarrow>
          Inr (\<lparr>cell_size = PREFERRED_CELL_SIZE,
                grid_width = MIN_GRID_SIZE,
                grid_height = MIN_GRID_SIZE,
                board_width = MIN_GRID_SIZE * PREFERRED_CELL_SIZE,
                board_height = MIN_GRID_SIZE * PREFERRED_CELL_SIZE,
                snake = Snake_init MIN_GRID_SIZE MIN_GRID_SIZE,
                food = f,
                score = 0,
                game_active = True,
                timer_active = True\<rparr>, t1))"

text \<open>
  \<^verbatim>\<open>update_game\<close>, the tick. The food is respawned against the body as it is
  after the move; \<^verbatim>\<open>eat_food\<close> only sets the flag \<open>grow\<close>.
\<close>

definition update_game :: "GameBoard \<Rightarrow> rand \<Rightarrow> (error + GameBoard \<times> rand) option" where
  "update_game g t =
     (if \<not> game_active g then Some (Inr (g, t))
      else (case move (snake g) of
        Inl e \<Rightarrow> Some (Inl e)
      | Inr s1 \<Rightarrow>
          (case check_collision s1 of
             Inl e \<Rightarrow> Some (Inl e)
           | Inr collided \<Rightarrow>
               (if collided
                then Some (Inr (g\<lparr>snake := s1, game_active := False,
                                  timer_active := False\<rparr>, t))
                else (case body s1 of
                   [] \<Rightarrow> Some (Inl IndexError)
                 | h # _ \<Rightarrow>
                     (if h = position (food g)
                      then (case respawn (food g) (body (eat_food s1)) t of
                              None \<Rightarrow> None
                            | Some (Inl e) \<Rightarrow> Some (Inl e)
                            | Some (Inr (f1, t1)) \<Rightarrow>
                                Some (Inr (g\<lparr>snake := eat_food s1, food := f1,
                                             score := score g + 10\<rparr>, t1)))
                      else Some (Inr (g\<lparr>snake := s1\<rparr>, t))))))))"

definition restart_game :: "GameBoard \<Rightarrow> rand \<Rightarrow> error + GameBoard \<times> rand" where
  "restart_game g t =
     (case init_game g t of
        Inl e \<Rightarrow> Inl e
      | Inr (g1, t1) \<Rightarrow> Inr (g1\<lparr>timer_active := True\<rparr>, t1))"

text \<open>
  \<^verbatim>\<open>resizeEvent\<close>; \<open>width\<close> and \<open>height\<close> are those of \<^verbatim>\<open>event.size()\<close>.
  \<open>resize_objects\<close> is the part between saving and restoring the session fields.
\<close>

definition snake_valid :: "Snake \<Rightarrow> int \<Rightarrow> int \<Rightarrow> bool" where
  "snake_valid s new_grid_width new_grid_height =
     list_all (\<lambda>pos. 0 \<le> fst pos \<and> fst pos < new_grid_width \<and>
                      0 \<le> snd pos \<and> snd pos < new_grid_height) (body s)"

definition resize_objects ::
  "GameBoard \<Rightarrow> int \<Rightarrow> int \<Rightarrow> rand \<Rightarrow> (error + GameBoard \<times> rand) option" where
  "resize_objects g new_grid_width new_grid_height t =
     (if snake_valid (snake g) new_grid_width new_grid_height
      then (let s1 = Snake_update_grid_size (snake g) new_grid_width new_grid_height
            in (case Food_update_grid_size (food g) new_grid_width new_grid_height t of
                 Inl e \<Rightarrow> Some (Inl e)
               | Inr (f1, t1) \<Rightarrow>
                   (case respawn f1 (body s1) t1 of
                      None \<Rightarrow> None
                    | Some (Inl e) \<Rightarrow> Some (Inl e)
                    | Some (Inr (f2, t2)) \<Rightarrow> Some (Inr (g\<lparr>snake := s1, food := f2\<rparr>, t2)))))
      else Some (init_game g t))"

definition resizeEvent ::
  "GameBoard \<Rightarrow> int \<Rightarrow> int \<Rightarrow> rand \<Rightarrow> (error + GameBoard \<times> rand) option" where
  "resizeEvent g width height t =
     (case calculate_dimensions width height of
        Inl e \<Rightarrow> Some (Inl e)
      | Inr (new_cell_size, new_grid_width, new_grid_height) \<Rightarrow>
         (if new_cell_size \<noteq> cell_size g \<or> new_grid_width \<noteq> grid_width g \<or>
             new_grid_height \<noteq> grid_height g
          then (let was_running = timer_active g;
                    g1 = (if was_running then g\<lparr>timer_active := False\<rparr> else g);
                    old_game_active = game_active g1;
                    old_score = score g1;
                    g2 = g1\<lparr>cell_size := new_cell_size,
                            grid_width := new_grid_width,
                            grid_height := new_grid_height,
                            board_width := new_grid_width * new_cell_size,
                            board_height := new_grid_height * new_cell_size\<rparr>
                in (case resize_objects g2 new_grid_width new_grid_height t of
                     None \<Rightarrow> None
                   | Some (Inl e) \<Rightarrow> Some (Inl e)
                   | Some (Inr (g3, t3)) \<Rightarrow>
                       (let g4 = g3\<lparr>score := old_score, game_active := old_game_active\<rparr>;
                            g5 = (if was_running \<and> game_active g4
                                  then g4\<lparr>timer_active := True\<rparr> else g4)
                        in Some (Inr (g5, t3)))))
          else Some (Inr (g, t))))"

text \<open>
  \<^verbatim>\<open>keyPressEvent\<close>: the four arrow keys ask for a heading; the space bar
  restarts the game, and only when the game is not active; any other key does nothing.
\<close>

datatype key = Key_Up | Key_Down | Key_Left | Key_Right | Key_Space | Key_Other

definition keyPressEvent :: "GameBoard \<Rightarrow> key \<Rightarrow> rand \<Rightarrow> error + GameBoard \<times> rand" where
  "keyPressEvent g k t =
     (if k = Key_Up then Inr (g\<lparr>snake := change_direction (snake g) UP\<rparr>, t)
      else if k = Key_Down then Inr (g\<lparr>snake := change_direction (snake g) DOWN\<rparr>, t)
      else if k = Key_Left then Inr (g\<lparr>snake := change_direction (snake g) LEFT\<rparr>, t)
      else if k = Key_Right then Inr (g\<lparr>snake := change_direction (snake g) RIGHT\<rparr>, t)
      else if k = Key_Space \<and> \<not> game_active g then restart_game g t
      else Inr (g, t))"

text \<open>
  The events that reach a \<^verbatim>\<open>GameBoard\<close>: the timer fires (\<^verbatim>\<open>update_game\<close>), a
  key is pressed, the widget is resized. \<open>run\<close> handles a list of events in order,
  the generator's state passed on; it stops at the first exception.
\<close>

datatype event = Tick | Key key | Resize int int

definition handle_event ::
  "event \<Rightarrow> GameBoard \<Rightarrow> rand \<Rightarrow> (error + GameBoard \<times> rand) option" where
  "handle_event e g t =
     (case e of
        Tick \<Rightarrow> update_game g t
      | Key k \<Rightarrow> Some (keyPressEvent g k t)
      | Resize width height \<Rightarrow> resizeEvent g width height t)"

fun run :: "event list \<Rightarrow> GameBoard \<Rightarrow> rand \<Rightarrow> (error + GameBoard \<times> rand) option" where
  "run [] g t = Some (Inr (g, t))"
| "run (e # es) g t =
     (case handle_event e g t of
        None \<Rightarrow> None
      | Some (Inl err) \<Rightarrow> Some (Inl err)
      | Some (Inr (g1, t1)) \<Rightarrow> run es g1 t1)"

subsection \<open>Vocabulary of the properties\<close>

text \<open>
  \<open>opposite\<close> is the expression \<^verbatim>\<open>(self.direction[0] * -1, self.direction[1] * -1)\<close>
  of \<^verbatim>\<open>change_direction\<close>. A straight body of \<open>n\<close> cells with head \<open>h\<close> that
  travels along \<open>d\<close> has its \<open>i\<close>-th cell \<open>i\<close> steps behind the head.
\<close>

definition opposite :: "cell \<Rightarrow> cell" where
  "opposite d = (fst d * -1, snd d * -1)"

definition straight_body :: "cell \<Rightarrow> cell \<Rightarrow> nat \<Rightarrow> cell list" where
  "straight_body h d n = map (\<lambda>i. (fst h - int i * fst d, snd h - int i * snd d)) [0..<n]"

text \<open>The cell size that \<^verbatim>\<open>calculate_dimensions\<close> arrives at, in closed form.\<close>

definition final_cell_size :: "int \<Rightarrow> int \<Rightarrow> int" where
  "final_cell_size width height =
     max MIN_CELL_SIZE (min MAX_CELL_SIZE
       (min ((width - 4) div max ((width - 4) div MIN_CELL_SIZE) MIN_GRID_SIZE)
            ((height - 4) div max ((height - 4) div MIN_CELL_SIZE) MIN_GRID_SIZE)))"

text \<open>
  The snake of Scenario A (a fresh snake in a grid of 20 by 20) and the snake of
  Scenario C, heading up, with the flag \<open>grow\<close> as a parameter.
\<close>

definition snake_A :: Snake where
  "snake_A = \<lparr>body = [(10,10),(9,10),(8,10)], direction = RIGHT, grow = False,
         snake_grid_width = 20, snake_grid_height = 20\<rparr>"

definition scenario_C :: "bool \<Rightarrow> Snake" where
  "scenario_C pending =
     \<lparr>body = [(5,5),(5,6),(5,7),(5,8),(5,4)], direction = UP, grow = pending,
      snake_grid_width = 20, snake_grid_height = 20\<rparr>"

text \<open>
  What \<^verbatim>\<open>respawn\<close> guarantees when it returns a food: the position is off the
  given body and the grid fields are untouched.
\<close>

definition respawn_ok :: "Food \<Rightarrow> cell list \<Rightarrow> (error + Food \<times> rand) \<Rightarrow> bool" where
  "respawn_ok f b y =
     (case y of Inl e \<Rightarrow> True
      | Inr (f', t') \<Rightarrow> position f' \<notin> set b \<and> food_grid_width f' = food_grid_width f
           \<and> food_grid_height f' = food_grid_height f)"

text \<open>The \<open>k\<close>-th cell that the loop of \<^verbatim>\<open>respawn\<close> draws from the tape \<open>t\<close>.\<close>

definition drawn_cell :: "int \<Rightarrow> int \<Rightarrow> rand \<Rightarrow> nat \<Rightarrow> cell" where
  "drawn_cell gw gh t k = (int (t (2 * k)) mod gw, int (t (2 * k + 1)) mod gh)"

text \<open>
  The invariant of the tick: snake and board agree on the grid, and while the game is
  active every cell of the body is inside the grid (\<open>snake_valid\<close> is the test that
  \<^verbatim>\<open>resizeEvent\<close> makes).
\<close>

definition tick_inv :: "GameBoard \<Rightarrow> bool" where
  "tick_inv g \<longleftrightarrow>
     snake_grid_width (snake g) = grid_width g \<and> snake_grid_height (snake g) = grid_height g \<and>
     (game_active g \<longrightarrow> snake_valid (snake g) (grid_width g) (grid_height g))"

text \<open>
  The invariant of a board under all events: the invariant of the tick, on a grid that
  holds the initial body of a snake.
\<close>

definition board_inv :: "GameBoard \<Rightarrow> bool" where
  "board_inv g \<longleftrightarrow> tick_inv g \<and> 4 \<le> grid_width g \<and> 1 \<le> grid_height g"

text \<open>A generator that keeps drawing the same raw number.\<close>

definition const_tape :: "nat \<Rightarrow> rand" where
  "const_tape k = (\<lambda>n. k)"




text \<open>
  Scenario B as a board: a grid of 10 by 10; the heading and the body of the snake
  are the parameters, the food lies on \<open>(0,0)\<close>.
\<close>

definition board_B :: "cell \<Rightarrow> cell list \<Rightarrow> GameBoard" where
  "board_B d b = \<lparr>cell_size = 24, grid_width = 10, grid_height = 10,
     board_width = 240, board_height = 240,
     snake = \<lparr>body = b, direction = d, grow = False,
              snake_grid_width = 10, snake_grid_height = 10\<rparr>,
     food = \<lparr>food_grid_width = 10, food_grid_height = 10, position = (0,0)\<rparr>,
     score = 0, game_active = True, timer_active = True\<rparr>"

text \<open>
  A session with score 40 on a grid of 20 by 20 (\<open>board_R\<close>), and the board after
  the widget is resized to 454 by 454 pixels, a grid of 30 by 30 (\<open>board_R1\<close>).
\<close>

definition board_R :: GameBoard where
  "board_R = \<lparr>cell_size = 15, grid_width = 20, grid_height = 20,
     board_width = 300, board_height = 300,
     snake = snake_A,
     food = \<lparr>food_grid_width = 20, food_grid_height = 20, position = (11,10)\<rparr>,
     score = 40, game_active = True, timer_active = True\<rparr>"

definition board_R1 :: GameBoard where
  "board_R1 = \<lparr>cell_size = 15, grid_width = 30, grid_height = 30,
     board_width = 450, board_height = 450,
     snake = snake_A\<lparr>snake_grid_width := 30, snake_grid_height := 30\<rparr>,
     food = \<lparr>food_grid_width = 30, food_grid_height = 30, position = (0,0)\<rparr>,
     score = 40, game_active = True, timer_active = True\<rparr>"

text \<open>
  A session on a grid of 30 by 30 whose snake is near the lower right corner
  (\<open>board_S\<close>), and the board after the widget is resized to 300 by 300 pixels, a grid
  of 19 by 19 that the snake does not fit (\<open>board_S1\<close>).
\<close>

definition board_S :: GameBoard where
  "board_S = \<lparr>cell_size = 15, grid_width = 30, grid_height = 30,
     board_width = 450, board_height = 450,
     snake = \<lparr>body = [(25,25),(24,25),(23,25)], direction = RIGHT, grow = False,
              snake_grid_width = 30, snake_grid_height = 30\<rparr>,
     food = \<lparr>food_grid_width = 30, food_grid_height = 30, position = (3,3)\<rparr>,
     score = 20, game_active = True, timer_active = True\<rparr>"

definition board_S1 :: GameBoard where
  "board_S1 = \<lparr>cell_size = 15, grid_width = 19, grid_height = 19,
     board_width = 285, board_height = 285,
     snake = \<lparr>body = [(9,9),(8,9),(7,9)], direction = RIGHT, grow = False,
              snake_grid_width = 19, snake_grid_height = 19\<rparr>,
     food = \<lparr>food_grid_width = 19, food_grid_height = 19, position = (9,9)\<rparr>,
     score = 20, game_active = True, timer_active = True\<rparr>"

text \<open>
  A game that is over on the grid of 15 by 15 (\<open>board_over\<close>), and the board after
  \<^verbatim>\<open>restart_game\<close> (\<open>board_over1\<close>).
\<close>

definition board_over :: GameBoard where
  "board_over = \<lparr>cell_size = 24, grid_width = 15, grid_height = 15,
     board_width = 360, board_height = 360,
     snake = \<lparr>body = [(15,7),(14,7),(13,7)], direction = RIGHT, grow = False,
              snake_grid_width = 15, snake_grid_height = 15\<rparr>,
     food = \<lparr>food_grid_width = 15, food_grid_height = 15, position = (2,2)\<rparr>,
     score = 30, game_active = False, timer_active = False\<rparr>"

definition board_over1 :: GameBoard where
  "board_over1 = \<lparr>cell_size = 24, grid_width = 15, grid_height = 15,
     board_width = 360, board_height = 360,
     snake = \<lparr>body = [(7,7),(6,7),(5,7)], direction = RIGHT, grow = False,
              snake_grid_width = 15, snake_grid_height = 15\<rparr>,
     food = \<lparr>food_grid_width = 15, food_grid_height = 15, position = (7,7)\<rparr>,
     score = 0, game_active = True, timer_active = True\<rparr>"

section \<open>Properties of Snake\<close>

lemma snake_A_simps:
  "body snake_A = [(10,10),(9,10),(8,10)]" "direction snake_A = RIGHT" "grow snake_A = False"
  "snake_grid_width snake_A = 20" "snake_grid_height snake_A = 20"
  by (simp_all add: snake_A_def)

lemma in_DIRECTIONS: "d \<in> set DIRECTIONS \<longleftrightarrow> d = UP \<or> d = DOWN \<or> d = LEFT \<or> d = RIGHT"
  by (auto simp: DIRECTIONS_def)

text \<open>
  C5. \<^verbatim>\<open>move\<close> on a snake with a body (head \<open>h\<close>) puts the cell \<open>h + direction\<close>
  in front. Without pending growth the last cell is dropped and the length is
  unchanged; with pending growth no cell is dropped (one cell more) and the flag is
  reset. The result is the same whatever the grid bounds are and whether or not
  the new head lies on the body: \<^verbatim>\<open>move\<close> checks neither.
\<close>

theorem move_step:
  assumes "body s = h # rest"
  shows "(\<not> grow s \<longrightarrow>
            move s = Inr (s\<lparr>body := (fst h + fst (direction s), snd h + snd (direction s))
                                    # butlast (h # rest)\<rparr>)
            \<and> length ((fst h + fst (direction s), snd h + snd (direction s)) # butlast (h # rest))
                = length (body s))
       \<and> (grow s \<longrightarrow>
            move s = Inr (s\<lparr>body := (fst h + fst (direction s), snd h + snd (direction s))
                                    # h # rest, grow := False\<rparr>))"
  using assms by (cases h) (simp add: move_def Let_def)

theorem move_step_witness:
  "move snake_A = Inr (snake_A\<lparr>body := [(11,10),(10,10),(9,10)]\<rparr>)
   \<and> move (snake_A\<lparr>grow := True\<rparr>)
       = Inr (snake_A\<lparr>body := [(11,10),(10,10),(9,10),(8,10)], grow := False\<rparr>)"
proof -
  have 1: "body snake_A = (10,10) # [(9,10),(8,10)]" by (simp add: snake_A_simps)
  have 2: "body (snake_A\<lparr>grow := True\<rparr>) = (10,10) # [(9,10),(8,10)]"
    by (simp add: snake_A_simps)
  have a: "move snake_A = Inr (snake_A\<lparr>body := [(11,10),(10,10),(9,10)]\<rparr>)"
    using move_step [OF 1] by (simp add: snake_A_simps RIGHT_def)
  have b: "move (snake_A\<lparr>grow := True\<rparr>)
       = Inr (snake_A\<lparr>body := [(11,10),(10,10),(9,10),(8,10)], grow := False\<rparr>)"
    using move_step [OF 2] by (simp add: snake_A_simps RIGHT_def)
  from a b show ?thesis by (rule conjI)
qed

lemma in_tail_iff_index:
  "x \<in> set rest \<longleftrightarrow> (\<exists>i. 0 < i \<and> i < length (x0 # rest) \<and> (x0 # rest) ! i = x)"
proof
  assume "x \<in> set rest"
  then obtain j where "j < length rest" "rest ! j = x" by (auto simp: in_set_conv_nth)
  then have "0 < Suc j \<and> Suc j < length (x0 # rest) \<and> (x0 # rest) ! Suc j = x" by simp
  then show "\<exists>i. 0 < i \<and> i < length (x0 # rest) \<and> (x0 # rest) ! i = x" by blast
next
  assume "\<exists>i. 0 < i \<and> i < length (x0 # rest) \<and> (x0 # rest) ! i = x"
  then obtain i where i: "0 < i" "i < length (x0 # rest)" "(x0 # rest) ! i = x" by blast
  then obtain j where "i = Suc j" by (cases i) auto
  with i show "x \<in> set rest" by auto
qed

lemma check_collision_iff:
  assumes "body s \<noteq> []"
  shows "check_collision s =
      Inr (fst (body s ! 0) < 0 \<or> snake_grid_width s \<le> fst (body s ! 0) \<or>
           snd (body s ! 0) < 0 \<or> snake_grid_height s \<le> snd (body s ! 0) \<or>
           (\<exists>i. 0 < i \<and> i < length (body s) \<and> body s ! i = body s ! 0))"
proof -
  from assms obtain hx hy rest where b: "body s = (hx, hy) # rest"
    by (cases "body s") auto
  show ?thesis
    using in_tail_iff_index [of "(hx, hy)" rest "(hx, hy)"]
    by (simp add: check_collision_def b)
qed

text \<open>
  C6, as stated, fails at Scenario C. From the body
  \<open>[(5,5),(5,6),(5,7),(5,8),(5,4)]\<close>, heading up and with no growth pending,
  \<^verbatim>\<open>move\<close> puts the head on \<open>(5,4)\<close> and removes the last cell, which is the
  cell \<open>(5,4)\<close>: the head coincides with no other cell and \<^verbatim>\<open>check_collision\<close>
  returns \<^verbatim>\<open>False\<close>.
\<close>

theorem scenario_C_no_collision:
  "move (scenario_C False) = Inr ((scenario_C False)\<lparr>body := [(5,4),(5,5),(5,6),(5,7),(5,8)]\<rparr>)
   \<and> check_collision ((scenario_C False)\<lparr>body := [(5,4),(5,5),(5,6),(5,7),(5,8)]\<rparr>) = Inr False"
  by (simp add: move_def scenario_C_def UP_def check_collision_def)

text \<open>
  C6, amended. On a snake with a body, \<^verbatim>\<open>check_collision\<close> returns \<^verbatim>\<open>True\<close>
  if and only if the head lies outside \<open>[0, width) \<times> [0, height)\<close> or equals the
  cell at some index other than 0; it returns a truth value only, so the snake is left
  as it is. In Scenario C the check after the move up reports a collision exactly when
  growth was pending at the move, so that the last cell \<open>(5,4)\<close> was kept.
\<close>

theorem check_collision_amended:
  assumes "body s \<noteq> []"
  shows "check_collision s =
      Inr (fst (body s ! 0) < 0 \<or> snake_grid_width s \<le> fst (body s ! 0) \<or>
           snd (body s ! 0) < 0 \<or> snake_grid_height s \<le> snd (body s ! 0) \<or>
           (\<exists>i. 0 < i \<and> i < length (body s) \<and> body s ! i = body s ! 0))
       \<and> (\<forall>pending. \<exists>s'. move (scenario_C pending) = Inr s' \<and> check_collision s' = Inr pending)"
proof -
  have "\<exists>s'. move (scenario_C pending) = Inr s' \<and> check_collision s' = Inr pending" for pending
    by (cases pending) (simp_all add: move_def scenario_C_def UP_def check_collision_def)
  with check_collision_iff [OF assms] show ?thesis by blast
qed

theorem check_collision_amended_witness:
  "check_collision (snake_A\<lparr>body := [(5,4),(5,5),(5,6),(5,7),(5,8),(5,4)]\<rparr>) = Inr True"
proof -
  let ?s = "snake_A\<lparr>body := [(5,4),(5,5),(5,6),(5,7),(5,8),(5,4)]\<rparr>"
  have b: "body ?s = [(5,4),(5,5),(5,6),(5,7),(5,8),(5,4)]" by simp
  have ne: "body ?s \<noteq> []" unfolding b by simp
  have ex: "\<exists>i. 0 < i \<and> i < length (body ?s) \<and> body ?s ! i = body ?s ! 0"
    unfolding b by (rule exI [where x = 5]) simp
  have eq: "check_collision ?s =
      Inr (fst (body ?s ! 0) < 0 \<or> snake_grid_width ?s \<le> fst (body ?s ! 0) \<or>
           snd (body ?s ! 0) < 0 \<or> snake_grid_height ?s \<le> snd (body ?s ! 0) \<or>
           (\<exists>i. 0 < i \<and> i < length (body ?s) \<and> body ?s ! i = body ?s ! 0))" (is "_ = Inr ?c")
    by (rule check_collision_amended [OF ne, THEN conjunct1])
  from ex have "?c" by (intro disjI2)
  then have "?c = True" by (rule eqTrueI)
  with eq show ?thesis by (simp only:)
qed

lemma change_direction_opposite: "change_direction s (opposite (direction s)) = s"
  by (simp add: change_direction_def opposite_def)

lemma change_direction_other:
  "d \<noteq> opposite (direction s) \<Longrightarrow> change_direction s d = s\<lparr>direction := d\<rparr>"
  by (auto simp add: change_direction_def opposite_def)

text \<open>
  C7. \<^verbatim>\<open>change_direction\<close> with the exact opposite of the current heading leaves
  the snake as it is, and with any other request stores the request. So for a heading
  \<open>H\<close> among the four and a body of at least two cells \<open>h, n, \<dots>\<close>, the move after
  \<^verbatim>\<open>change_direction(opposite(H))\<close> is the move that would have happened without
  the call: the new head is \<open>h + H\<close>, which is not the cell \<open>h - H\<close> behind the head.
\<close>

theorem no_reverse:
  assumes "direction s \<in> set DIRECTIONS" and "body s = h # n # rest"
  shows "change_direction s (opposite (direction s)) = s
       \<and> (\<forall>d. d \<noteq> opposite (direction s) \<longrightarrow> change_direction s d = s\<lparr>direction := d\<rparr>)
       \<and> move (change_direction s (opposite (direction s))) = move s
       \<and> (\<exists>s'. move (change_direction s (opposite (direction s))) = Inr s'
             \<and> hd (body s') = (fst h + fst (direction s), snd h + snd (direction s))
             \<and> hd (body s') \<noteq> (fst h - fst (direction s), snd h - snd (direction s)))"
proof -
  have nz: "fst (direction s) \<noteq> 0 \<or> snd (direction s) \<noteq> 0"
    using assms(1) by (auto simp: in_DIRECTIONS UP_def DOWN_def LEFT_def RIGHT_def)
  have mv: "\<exists>s'. move s = Inr s'
             \<and> hd (body s') = (fst h + fst (direction s), snd h + snd (direction s))"
    using assms(2) by (cases h) (simp add: move_def Let_def)
  from nz have "(fst h + fst (direction s), snd h + snd (direction s))
       \<noteq> (fst h - fst (direction s), snd h - snd (direction s))" by auto
  with mv show ?thesis
    by (auto simp add: change_direction_opposite change_direction_other)
qed

theorem no_reverse_witness:
  "change_direction snake_A LEFT = snake_A
   \<and> move (change_direction snake_A LEFT) = Inr (snake_A\<lparr>body := [(11,10),(10,10),(9,10)]\<rparr>)"
proof -
  have o: "opposite (direction snake_A) = LEFT"
    by (simp add: snake_A_simps opposite_def RIGHT_def LEFT_def)
  have 1: "direction snake_A \<in> set DIRECTIONS" by (simp add: snake_A_simps DIRECTIONS_def)
  have 2: "body snake_A = (10,10) # (9,10) # [(8,10)]" by (simp add: snake_A_simps)
  note r = no_reverse [OF 1 2]
  have a: "change_direction snake_A (opposite (direction snake_A)) = snake_A"
    by (rule r [THEN conjunct1])
  have b: "move (change_direction snake_A (opposite (direction snake_A))) = move snake_A"
    by (rule r [THEN conjunct2, THEN conjunct2, THEN conjunct1])
  have "move snake_A = Inr (snake_A\<lparr>body := [(11,10),(10,10),(9,10)]\<rparr>)"
    by (simp add: move_def snake_A_simps RIGHT_def)
  with a b show ?thesis by (simp add: o)
qed

lemma upt_3:
  "[0..<Suc (Suc (Suc m))] = 0 # Suc 0 # Suc (Suc 0) # [Suc (Suc (Suc 0))..<Suc (Suc (Suc m))]"
  by (simp add: upt_conv_Cons del: upt_Suc)

lemma straight_body_3:
  "straight_body h d (Suc (Suc (Suc m))) =
     h # (fst h - fst d, snd h - snd d) # (fst h - 2 * fst d, snd h - 2 * snd d)
       # map (\<lambda>i. (fst h - int i * fst d, snd h - int i * snd d))
           [Suc (Suc (Suc 0))..<Suc (Suc (Suc m))]"
  unfolding straight_body_def upt_3 by simp

text \<open>
  C10. A straight body of at least three cells travels along \<open>H\<close>. Between two moves,
  \<^verbatim>\<open>change_direction\<close> is called with a heading \<open>p\<close> perpendicular to \<open>H\<close> and then
  with \<open>opposite H\<close>. Both calls are accepted, since each is compared with the heading
  stored at that moment; the stored heading is then \<open>opposite H\<close>, and after the next
  \<^verbatim>\<open>move\<close> the check \<^verbatim>\<open>check_collision\<close> returns \<^verbatim>\<open>True\<close>.
\<close>

theorem two_turns_reverse:
  assumes H: "direction s \<in> set DIRECTIONS" and P: "p \<in> set DIRECTIONS"
    and perp: "p \<noteq> direction s" "p \<noteq> opposite (direction s)"
    and n: "3 \<le> n" and b: "body s = straight_body h (direction s) n"
  shows "change_direction s p = s\<lparr>direction := p\<rparr>
       \<and> change_direction (change_direction s p) (opposite (direction s))
           = s\<lparr>direction := opposite (direction s)\<rparr>
       \<and> (\<exists>s'. move (change_direction (change_direction s p) (opposite (direction s))) = Inr s'
              \<and> check_collision s' = Inr True)"
proof -
  obtain m where m: "n = Suc (Suc (Suc m))"
    using n by (metis Suc_le_D numeral_3_eq_3 Suc_le_mono)
  have c1: "change_direction s p = s\<lparr>direction := p\<rparr>"
    using perp(2) by (rule change_direction_other)
  have "opposite (direction s) \<noteq> opposite p"
    using perp(1) by (auto simp: opposite_def prod_eq_iff)
  then have c2: "change_direction (s\<lparr>direction := p\<rparr>) (opposite (direction s))
           = s\<lparr>direction := opposite (direction s)\<rparr>"
    by (simp add: change_direction_other)
  have b3: "body s = h # (fst h - fst (direction s), snd h - snd (direction s))
       # (fst h - 2 * fst (direction s), snd h - 2 * snd (direction s))
       # map (\<lambda>i. (fst h - int i * fst (direction s), snd h - int i * snd (direction s)))
           [Suc (Suc (Suc 0))..<Suc (Suc (Suc m))]"
    unfolding b m by (rule straight_body_3)
  have "\<exists>s'. move (s\<lparr>direction := opposite (direction s)\<rparr>) = Inr s' \<and> check_collision s' = Inr True"
    by (cases h) (simp add: move_def Let_def b3 opposite_def check_collision_def)
  with c1 c2 show ?thesis by simp
qed

theorem two_turns_reverse_witness:
  "change_direction (change_direction (snake_A\<lparr>body := straight_body (10,10) RIGHT 3\<rparr>) UP) LEFT
     = snake_A\<lparr>body := straight_body (10,10) RIGHT 3, direction := LEFT\<rparr>
   \<and> (\<exists>s'. move (change_direction (change_direction
               (snake_A\<lparr>body := straight_body (10,10) RIGHT 3\<rparr>) UP) LEFT) = Inr s'
          \<and> check_collision s' = Inr True)"
proof -
  let ?s = "snake_A\<lparr>body := straight_body (10,10) RIGHT 3\<rparr>"
  have d: "direction ?s = RIGHT" by (simp add: snake_A_simps)
  have o: "opposite RIGHT = LEFT" by (simp add: opposite_def RIGHT_def LEFT_def)
  have 1: "direction ?s \<in> set DIRECTIONS" unfolding d by (simp add: DIRECTIONS_def)
  have 2: "UP \<in> set DIRECTIONS" by (simp add: DIRECTIONS_def)
  have 3: "UP \<noteq> direction ?s" unfolding d by (simp add: UP_def RIGHT_def)
  have 4: "UP \<noteq> opposite (direction ?s)" unfolding d o by (simp add: UP_def LEFT_def)
  have 5: "(3::nat) \<le> 3" by simp
  have 6: "body ?s = straight_body (10,10) (direction ?s) 3" unfolding d by simp
  note r = two_turns_reverse [OF 1 2 3 4 5 6, unfolded d o]
  show ?thesis by (rule r [THEN conjunct2])
qed

section \<open>The grid dimensions\<close>

lemma floordiv_Inr: "b \<noteq> 0 \<Longrightarrow> floordiv a b = Inr (a div b)"
  by (simp add: floordiv_def)

lemma final_cell_size_range:
  "MIN_CELL_SIZE \<le> final_cell_size width height \<and> final_cell_size width height \<le> MAX_CELL_SIZE"
  unfolding final_cell_size_def MIN_CELL_SIZE_def MAX_CELL_SIZE_def by simp

lemma calculate_dimensions_eq:
  "calculate_dimensions width height =
     Inr (final_cell_size width height,
          max ((width - 4) div final_cell_size width height) MIN_GRID_SIZE,
          max ((height - 4) div final_cell_size width height) MIN_GRID_SIZE)"
proof -
  have a: "MIN_CELL_SIZE \<noteq> 0" by (simp add: MIN_CELL_SIZE_def)
  have b: "max x MIN_GRID_SIZE \<noteq> 0" for x by (simp add: MIN_GRID_SIZE_def max_def)
  have c: "max MIN_CELL_SIZE x \<noteq> 0" for x by (simp add: MIN_CELL_SIZE_def max_def)
  show ?thesis
    unfolding calculate_dimensions_def final_cell_size_def Let_def
    by (simp only: floordiv_Inr [OF a] floordiv_Inr [OF b] floordiv_Inr [OF c] sum.case)
qed

text \<open>
  C9. For all pixel sizes, the positive ones among them, \<^verbatim>\<open>calculate_dimensions\<close>
  returns a result (no division by zero can occur), which depends on its two
  arguments only. The cell size lies between \<open>MIN_CELL_SIZE\<close> and \<open>MAX_CELL_SIZE\<close>,
  and each grid dimension is the available space (the pixels less the border of 4)
  divided by that cell size, raised to \<open>MIN_GRID_SIZE\<close> when it is smaller.
\<close>

theorem calculate_dimensions_total:
  "\<exists>cs. calculate_dimensions width height =
          Inr (cs, max ((width - 4) div cs) MIN_GRID_SIZE, max ((height - 4) div cs) MIN_GRID_SIZE)
        \<and> MIN_CELL_SIZE \<le> cs \<and> cs \<le> MAX_CELL_SIZE"
  using calculate_dimensions_eq final_cell_size_range by blast

lemma calculate_dimensions_454: "calculate_dimensions 454 454 = Inr (15, 30, 30)"
  by (simp add: calculate_dimensions_eq final_cell_size_def MIN_CELL_SIZE_def MAX_CELL_SIZE_def
      MIN_GRID_SIZE_def)

lemma calculate_dimensions_300: "calculate_dimensions 300 300 = Inr (15, 19, 19)"
  by (simp add: calculate_dimensions_eq final_cell_size_def MIN_CELL_SIZE_def MAX_CELL_SIZE_def
      MIN_GRID_SIZE_def)

section \<open>The food\<close>

lemma generate_position_Inr:
  "1 \<le> gw \<Longrightarrow> 1 \<le> gh \<Longrightarrow>
   generate_position gw gh t = Inr ((int (t 0) mod gw, int (t 1) mod gh), \<lambda>n. t (Suc (Suc n)))"
  by (simp add: generate_position_def randint_def)

lemma const_tape_shift: "(\<lambda>n. const_tape k (Suc (Suc n))) = const_tape k"
  by (simp add: const_tape_def)

lemma generate_position_const:
  "1 \<le> gw \<Longrightarrow> 1 \<le> gh \<Longrightarrow>
   generate_position gw gh (const_tape k) = Inr ((int k mod gw, int k mod gh), const_tape k)"
  by (simp add: generate_position_Inr const_tape_shift) (simp add: const_tape_def)

lemma respawn_post_aux:
  assumes "respawn f b t = Some y"
  shows "respawn_ok f b y"
proof (rule respawn.raw_induct [where P = "\<lambda>f b t y. respawn_ok f b y", OF _ assms])
  fix rsp :: "Food \<Rightarrow> cell list \<Rightarrow> rand \<Rightarrow> (error + Food \<times> rand) option"
  fix f b t y
  assume IH: "\<And>f b t y. rsp f b t = Some y \<Longrightarrow> respawn_ok f b y"
  assume step: "(case generate_position (food_grid_width f) (food_grid_height f) t of
        Inl e \<Rightarrow> Some (Inl e)
      | Inr pt \<Rightarrow>
          (if fst pt \<notin> set b then Some (Inr (f\<lparr>position := fst pt\<rparr>, snd pt))
           else rsp (f\<lparr>position := fst pt\<rparr>) b (snd pt))) = Some y"
  show "respawn_ok f b y"
  proof (cases "generate_position (food_grid_width f) (food_grid_height f) t")
    case (Inl e)
    with step show ?thesis by (auto simp: respawn_ok_def)
  next
    case (Inr pt)
    show ?thesis
    proof (cases "fst pt \<in> set b")
      case True
      with step Inr have "rsp (f\<lparr>position := fst pt\<rparr>) b (snd pt) = Some y" by simp
      from IH [OF this] show ?thesis by (auto simp: respawn_ok_def split: sum.splits)
    next
      case False
      with step Inr show ?thesis by (auto simp: respawn_ok_def)
    qed
  qed
qed

lemma respawn_post:
  "respawn f b t = Some (Inr (f', t')) \<Longrightarrow>
     position f' \<notin> set b \<and> food_grid_width f' = food_grid_width f
     \<and> food_grid_height f' = food_grid_height f"
  using respawn_post_aux [of f b t "Inr (f', t')"] by (simp add: respawn_ok_def)

lemma respawn_first:
  assumes "generate_position (food_grid_width f) (food_grid_height f) t = Inr (p, t')"
    and "p \<notin> set b"
  shows "respawn f b t = Some (Inr (f\<lparr>position := p\<rparr>, t'))"
  using assms by (subst respawn.simps) simp

text \<open>
  The loop of \<^verbatim>\<open>respawn\<close> returns as soon as the generator draws a cell off the
  body: if the \<open>k\<close>-th drawn cell is free, a food is returned.
\<close>

lemma respawn_returns:
  assumes "1 \<le> food_grid_width f" "1 \<le> food_grid_height f"
    and "drawn_cell (food_grid_width f) (food_grid_height f) t k \<notin> set b"
  shows "\<exists>f' t'. respawn f b t = Some (Inr (f', t'))"
  using assms
proof (induction k arbitrary: f t)
  case 0
  then show ?case
    by (subst respawn.simps) (simp add: generate_position_Inr drawn_cell_def)
next
  case (Suc k)
  let ?p = "(int (t 0) mod food_grid_width f, int (t 1) mod food_grid_height f)"
  let ?f = "f\<lparr>position := ?p\<rparr>"
  let ?t = "\<lambda>n. t (Suc (Suc n))"
  have "drawn_cell (food_grid_width ?f) (food_grid_height ?f) ?t k \<notin> set b"
    using Suc.prems(3) by (simp add: drawn_cell_def)
  with Suc.IH [of ?f ?t] Suc.prems(1,2)
  have "\<exists>f' t'. respawn ?f b ?t = Some (Inr (f', t'))" by simp
  then show ?case
    using Suc.prems(1,2) by (subst respawn.simps) (simp add: generate_position_Inr)
qed

section \<open>The tick\<close>

lemma move_Inr:
  assumes "move s = Inr s1"
  shows "body s \<noteq> [] \<and> body s1 \<noteq> []
       \<and> length (body s1) = length (body s) + (if grow s then 1 else 0)
       \<and> set (tl (body s1)) \<subseteq> set (body s)
       \<and> snake_grid_width s1 = snake_grid_width s \<and> snake_grid_height s1 = snake_grid_height s
       \<and> \<not> grow s1"
proof (cases "body s")
  case Nil
  with assms show ?thesis by (simp add: move_def)
next
  case (Cons h rest)
  have "set (butlast (h # rest)) \<subseteq> set (h # rest)" by (auto dest: in_set_butlastD)
  with assms Cons show ?thesis
    by (cases h) (auto simp: move_def Let_def split: if_splits)
qed

lemma check_collision_False:
  assumes "check_collision s = Inr False"
  shows "\<exists>hx hy rest. body s = (hx, hy) # rest \<and> 0 \<le> hx \<and> hx < snake_grid_width s
          \<and> 0 \<le> hy \<and> hy < snake_grid_height s \<and> (hx, hy) \<notin> set rest"
  using assms by (auto simp: check_collision_def split: list.splits if_splits)

lemma update_game_inactive: "\<not> game_active g \<Longrightarrow> update_game g t = Some (Inr (g, t))"
  by (simp add: update_game_def)

lemma update_game_cases:
  assumes "game_active g" and "update_game g t = Some (Inr (g', t'))"
  shows "\<exists>s1. move (snake g) = Inr s1 \<and>
          ((check_collision s1 = Inr True
              \<and> g' = g\<lparr>snake := s1, game_active := False, timer_active := False\<rparr> \<and> t' = t)
         \<or> (check_collision s1 = Inr False \<and> hd (body s1) = position (food g)
              \<and> (\<exists>f1. respawn (food g) (body s1) t = Some (Inr (f1, t'))
                   \<and> g' = g\<lparr>snake := eat_food s1, food := f1, score := score g + 10\<rparr>))
         \<or> (check_collision s1 = Inr False \<and> hd (body s1) \<noteq> position (food g)
              \<and> g' = g\<lparr>snake := s1\<rparr> \<and> t' = t))"
  using assms
  by (auto simp: update_game_def eat_food_def
      split: sum.splits list.splits if_splits option.splits prod.splits)

lemma check_collision_Inr: "body s \<noteq> [] \<Longrightarrow> \<exists>c. check_collision s = Inr c"
  by (auto simp: check_collision_def split: list.splits)

text \<open>
  The tick returns a board whenever the snake has a body and the generator draws, at
  some point, a cell off the moved body.
\<close>

lemma update_game_returns:
  assumes m: "move (snake g) = Inr s1"
    and d: "1 \<le> food_grid_width (food g)" "1 \<le> food_grid_height (food g)"
    and k: "drawn_cell (food_grid_width (food g)) (food_grid_height (food g)) t k \<notin> set (body s1)"
  shows "\<exists>g' t'. update_game g t = Some (Inr (g', t'))"
proof (cases "game_active g")
  case False
  then show ?thesis by (simp add: update_game_inactive)
next
  case True
  from move_Inr [OF m] have ne: "body s1 \<noteq> []" by simp
  then obtain h rest where b: "body s1 = h # rest" by (cases "body s1") auto
  from check_collision_Inr [OF ne] obtain c where c: "check_collision s1 = Inr c" by blast
  from respawn_returns [OF d k] obtain f1 t1 where
    r: "respawn (food g) (body (eat_food s1)) t = Some (Inr (f1, t1))"
    by (auto simp: eat_food_def)
  from True m c b r show ?thesis by (simp add: update_game_def)
qed








section \<open>The invariant of the tick\<close>

lemma snake_valid_iff:
  "snake_valid s w h \<longleftrightarrow> (\<forall>p \<in> set (body s). 0 \<le> fst p \<and> fst p < w \<and> 0 \<le> snd p \<and> snd p < h)"
  by (simp add: snake_valid_def list_all_iff)

lemma snake_valid_after_move:
  assumes m: "move s = Inr s1" and c: "check_collision s1 = Inr False"
    and v: "snake_valid s w h" and d: "snake_grid_width s = w" "snake_grid_height s = h"
  shows "snake_valid s1 w h"
proof -
  from check_collision_False [OF c] obtain hx hy rest where
    b: "body s1 = (hx, hy) # rest" and hb: "0 \<le> hx" "hx < snake_grid_width s1"
      "0 \<le> hy" "hy < snake_grid_height s1" by blast
  from move_Inr [OF m] b have sub: "set rest \<subseteq> set (body s)"
    and dd: "snake_grid_width s1 = w" "snake_grid_height s1 = h" using d by auto
  from v sub hb dd show ?thesis unfolding snake_valid_iff b by auto
qed

lemma tick_inv_update_game:
  assumes i: "tick_inv g" and u: "update_game g t = Some (Inr (g', t'))"
  shows "tick_inv g' \<and> grid_width g' = grid_width g \<and> grid_height g' = grid_height g"
proof (cases "game_active g")
  case False
  with u i show ?thesis by (simp add: update_game_inactive)
next
  case True
  from i True have v: "snake_valid (snake g) (grid_width g) (grid_height g)"
    and d: "snake_grid_width (snake g) = grid_width g" "snake_grid_height (snake g) = grid_height g"
    by (auto simp: tick_inv_def)
  from update_game_cases [OF True u] obtain s1 where m: "move (snake g) = Inr s1"
    and c: "(check_collision s1 = Inr True
              \<and> g' = g\<lparr>snake := s1, game_active := False, timer_active := False\<rparr>)
         \<or> (check_collision s1 = Inr False
              \<and> (\<exists>f1. g' = g\<lparr>snake := eat_food s1, food := f1, score := score g + 10\<rparr>))
         \<or> (check_collision s1 = Inr False \<and> g' = g\<lparr>snake := s1\<rparr>)"
    by blast
  from move_Inr [OF m] d have dd: "snake_grid_width s1 = grid_width g"
    "snake_grid_height s1 = grid_height g" by auto
  from c show ?thesis
  proof (elim disjE conjE exE)
    assume "g' = g\<lparr>snake := s1, game_active := False, timer_active := False\<rparr>"
    with dd show ?thesis by (simp add: tick_inv_def)
  next
    fix f1
    assume cf: "check_collision s1 = Inr False"
      and g': "g' = g\<lparr>snake := eat_food s1, food := f1, score := score g + 10\<rparr>"
    from snake_valid_after_move [OF m cf v d]
    have "snake_valid (eat_food s1) (grid_width g) (grid_height g)"
      by (simp add: snake_valid_def eat_food_def)
    with dd g' show ?thesis by (simp add: tick_inv_def eat_food_def)
  next
    assume cf: "check_collision s1 = Inr False" and g': "g' = g\<lparr>snake := s1\<rparr>"
    from snake_valid_after_move [OF m cf v d] dd g' show ?thesis by (simp add: tick_inv_def)
  qed
qed

lemma init_game_Inr:
  assumes "init_game b t = Inr (g, t')"
  shows "snake g = Snake_init (grid_width b) (grid_height b) \<and> score g = 0 \<and> game_active g
       \<and> grid_width g = grid_width b \<and> grid_height g = grid_height b
       \<and> cell_size g = cell_size b \<and> timer_active g = timer_active b
       \<and> food_grid_width (food g) = grid_width b \<and> food_grid_height (food g) = grid_height b
       \<and> 0 \<le> fst (position (food g)) \<and> fst (position (food g)) < grid_width b
       \<and> 0 \<le> snd (position (food g)) \<and> snd (position (food g)) < grid_height b"
  using assms
  by (auto simp: init_game_def Food_init_def generate_position_def randint_def
      split: sum.splits prod.splits if_splits)

lemma half_in_range:
  "4 \<le> (w::int) \<Longrightarrow> w div 2 < w \<and> 2 \<le> w div 2"
  "1 \<le> (h::int) \<Longrightarrow> 0 \<le> h div 2 \<and> h div 2 < h"
  by presburger+

lemma tick_inv_init_game:
  assumes "4 \<le> grid_width b" "1 \<le> grid_height b" "init_game b t = Inr (g, t')"
  shows "tick_inv g"
proof -
  from init_game_Inr [OF assms(3)] have s: "snake g = Snake_init (grid_width b) (grid_height b)"
    and d: "grid_width g = grid_width b" "grid_height g = grid_height b" by auto
  from half_in_range(1) [OF assms(1)] half_in_range(2) [OF assms(2)] show ?thesis
    by (simp add: tick_inv_def s d Snake_init_def Let_def snake_valid_def)
qed

section \<open>Resizing and restarting\<close>

lemma respawn_const:
  assumes "1 \<le> food_grid_width f" "1 \<le> food_grid_height f"
    and "(int k mod food_grid_width f, int k mod food_grid_height f) \<notin> set b"
  shows "respawn f b (const_tape k)
     = Some (Inr (f\<lparr>position := (int k mod food_grid_width f, int k mod food_grid_height f)\<rparr>,
                  const_tape k))"
  using assms by (intro respawn_first) (simp_all add: generate_position_const)

lemma resize_R: "resizeEvent board_R 454 454 (const_tape 0) = Some (Inr (board_R1, const_tape 0))"
  unfolding resizeEvent_def resize_objects_def
  by (simp add: calculate_dimensions_454 board_R_def board_R1_def snake_valid_def snake_A_simps
      Snake_update_grid_size_def Food_update_grid_size_def generate_position_const respawn_const)

lemma resize_S: "resizeEvent board_S 300 300 (const_tape 9) = Some (Inr (board_S1, const_tape 9))"
  unfolding resizeEvent_def resize_objects_def
  by (simp add: calculate_dimensions_300 board_S_def board_S1_def snake_valid_def
      init_game_def Food_init_def Snake_init_def generate_position_const)

lemma calculate_dimensions_grid:
  assumes "calculate_dimensions width height = Inr (cs, gw, gh)"
  shows "MIN_GRID_SIZE \<le> gw \<and> MIN_GRID_SIZE \<le> gh"
  using assms by (auto simp: calculate_dimensions_eq)

text \<open>
  \<^verbatim>\<open>resizeEvent\<close> returns a board, with no exception, whenever the generator
  draws, after the first position, a cell of the new grid off the body.
\<close>

lemma resizeEvent_returns:
  assumes c: "calculate_dimensions width height = Inr (cs, gw, gh)"
    and k: "drawn_cell gw gh (\<lambda>n. t (Suc (Suc n))) k \<notin> set (body (snake g))"
  shows "\<exists>g' t'. resizeEvent g width height t = Some (Inr (g', t'))"
proof -
  from calculate_dimensions_grid [OF c] have d: "1 \<le> gw" "1 \<le> gh"
    by (simp_all add: MIN_GRID_SIZE_def)
  let ?f1 = "(food g)\<lparr>food_grid_width := gw, food_grid_height := gh,
                      position := (int (t 0) mod gw, int (t 1) mod gh)\<rparr>"
  have "\<exists>f2 t2. respawn ?f1 (body (snake g)) (\<lambda>n. t (Suc (Suc n))) = Some (Inr (f2, t2))"
    using d k by (intro respawn_returns [where k = k]) simp_all
  then obtain f2 t2 where
    r: "respawn ?f1 (body (snake g)) (\<lambda>n. t (Suc (Suc n))) = Some (Inr (f2, t2))" by blast
  show ?thesis
    unfolding resizeEvent_def resize_objects_def
    using d r
    by (simp add: c Let_def Food_update_grid_size_def Snake_update_grid_size_def
        generate_position_Inr init_game_def Food_init_def)
qed

text \<open>
  C2. Whenever \<^verbatim>\<open>resizeEvent\<close> returns, the score and the flag \<open>game_active\<close>
  are those of before the call: in the branch that keeps the snake, in the branch
  that discards it and calls \<^verbatim>\<open>init_game\<close>, and when the derived dimensions did
  not change. In particular an active session with score 40 whose grid goes from 20 by
  20 to 30 by 30 still has score 40 and is still active.
\<close>

theorem resize_preserves_session:
  assumes "resizeEvent g width height t = Some (Inr (g', t'))"
  shows "score g' = score g \<and> game_active g' = game_active g"
  using assms
  by (auto simp: resizeEvent_def Let_def
      split: sum.splits option.splits prod.splits if_splits)

theorem resize_preserves_session_witness:
  "resizeEvent board_R 454 454 (const_tape 0) = Some (Inr (board_R1, const_tape 0))
   \<and> score board_R = 40 \<and> game_active board_R \<and> score board_R1 = 40 \<and> game_active board_R1
   \<and> resizeEvent board_S 300 300 (const_tape 9) = Some (Inr (board_S1, const_tape 9))
   \<and> score board_S = 20 \<and> game_active board_S \<and> score board_S1 = 20 \<and> game_active board_S1"
proof -
  have r: "score board_R = 40" "game_active board_R" by (simp_all add: board_R_def)
  have s: "score board_S = 20" "game_active board_S" by (simp_all add: board_S_def)
  from resize_preserves_session [OF resize_R] r
  have 1: "score board_R1 = 40 \<and> game_active board_R1" by simp
  from resize_preserves_session [OF resize_S] s
  have 2: "score board_S1 = 20 \<and> game_active board_S1" by simp
  from 1 2 r s resize_R resize_S show ?thesis by simp
qed

text \<open>
  When the snake fits the new grid, \<^verbatim>\<open>resizeEvent\<close> calls \<^verbatim>\<open>respawn\<close>
  after \<^verbatim>\<open>update_grid_size\<close>, and the food it leaves is off the body, which is
  unchanged.
\<close>

lemma resize_objects_valid:
  assumes "snake_valid (snake g) w h" and "resize_objects g w h t = Some (Inr (g', t'))"
  shows "position (food g') \<notin> set (body (snake g')) \<and> body (snake g') = body (snake g)"
proof -
  from assms obtain f1 t1 f2 where
    r: "respawn f1 (body (Snake_update_grid_size (snake g) w h)) t1 = Some (Inr (f2, t'))"
    and g': "g' = g\<lparr>snake := Snake_update_grid_size (snake g) w h, food := f2\<rparr>"
    by (auto simp: resize_objects_def Let_def split: sum.splits option.splits prod.splits)
  from respawn_post [OF r] g' show ?thesis by (simp add: Snake_update_grid_size_def)
qed

text \<open>
  What \<^verbatim>\<open>restart_game\<close> does establish: the fresh snake of three cells for the
  current grid, heading right; score 0; an active game with a running timer; a food
  inside the grid.
\<close>

lemma restart_game_fresh:
  assumes "restart_game g t = Inr (g', t')"
  shows "snake g' = Snake_init (grid_width g) (grid_height g) \<and> score g' = 0 \<and> game_active g'
       \<and> timer_active g' \<and> grid_width g' = grid_width g \<and> grid_height g' = grid_height g
       \<and> 0 \<le> fst (position (food g')) \<and> fst (position (food g')) < grid_width g
       \<and> 0 \<le> snd (position (food g')) \<and> snd (position (food g')) < grid_height g"
proof -
  from assms obtain g1 where i: "init_game g t = Inr (g1, t')" and g': "g' = g1\<lparr>timer_active := True\<rparr>"
    by (auto simp: restart_game_def split: sum.splits)
  from init_game_Inr [OF i] g' show ?thesis by simp
qed

text \<open>
  C3: the code at a failing input. \<^verbatim>\<open>init_game\<close> builds the food with
  \<^verbatim>\<open>Food(...)\<close>, whose position is one draw of \<^verbatim>\<open>generate_position\<close>, and
  does not call \<^verbatim>\<open>respawn\<close>. On the grid of 15 by 15, when the generator draws
  7 and 7, the restarted game has its food on \<open>(7,7)\<close>, the head of the new snake.
\<close>

theorem restart_food_on_snake:
  "restart_game board_over (const_tape 7) = Inr (board_over1, const_tape 7)
   \<and> position (food board_over1) \<in> set (body (snake board_over1))"
  by (simp add: restart_game_def init_game_def Food_init_def Snake_init_def
      generate_position_const board_over_def board_over1_def)

text \<open>
  C8: the code at a failing input. When the snake does not fit the new grid,
  \<^verbatim>\<open>resizeEvent\<close> calls \<^verbatim>\<open>init_game\<close>, whose food is one draw of
  \<^verbatim>\<open>generate_position\<close> with no \<^verbatim>\<open>respawn\<close> after it. Resizing
  \<open>board_S\<close> to 300 by 300 pixels, when the generator draws 9 and 9, leaves an
  active game whose food is on \<open>(9,9)\<close>, the head of the new snake.
\<close>

theorem resize_discard_food_on_snake:
  "resizeEvent board_S 300 300 (const_tape 9) = Some (Inr (board_S1, const_tape 9))
   \<and> game_active board_S1
   \<and> position (food board_S1) \<in> set (body (snake board_S1))"
  using resize_S by (simp add: board_S1_def)

theorem resize_discard_food_on_snake_witness:
  "resizeEvent board_S 300 300 (const_tape 9) \<noteq> None
   \<and> position (food board_S1) = (9,9) \<and> hd (body (snake board_S1)) = (9,9)"
  using resize_discard_food_on_snake by (simp add: board_S1_def)

section \<open>Reachable boards\<close>

text \<open>
  Every event keeps the invariant \<open>board_inv\<close>: the tick, a key press (a turn, or a
  restart on the same grid) and a resize (whose grid is never smaller than
  \<open>MIN_GRID_SIZE\<close>, and which either keeps a snake that fits or builds a new one).
\<close>

lemma board_inv_update_game:
  assumes "board_inv g" and "update_game g t = Some (Inr (g', t'))"
  shows "board_inv g'"
  using tick_inv_update_game [OF _ assms(2)] assms(1) by (simp add: board_inv_def)

lemma change_direction_fields:
  "body (change_direction s d) = body s
   \<and> snake_grid_width (change_direction s d) = snake_grid_width s
   \<and> snake_grid_height (change_direction s d) = snake_grid_height s"
  by (simp add: change_direction_def)

lemma board_inv_turn:
  assumes "board_inv g"
  shows "board_inv (g\<lparr>snake := change_direction (snake g) d\<rparr>)"
  using assms change_direction_fields [of "snake g" d]
  by (simp add: board_inv_def tick_inv_def snake_valid_def)

lemma board_inv_restart_game:
  assumes i: "board_inv g" and r: "restart_game g t = Inr (g', t')"
  shows "board_inv g'"
proof -
  from r obtain g1 where ig: "init_game g t = Inr (g1, t')"
    and g': "g' = g1\<lparr>timer_active := True\<rparr>"
    by (auto simp: restart_game_def split: sum.splits)
  from i have d: "4 \<le> grid_width g" "1 \<le> grid_height g" by (simp_all add: board_inv_def)
  from tick_inv_init_game [OF d ig] have "tick_inv g1" .
  with init_game_Inr [OF ig] d g' show ?thesis by (simp add: board_inv_def tick_inv_def)
qed

lemma board_inv_keyPressEvent:
  assumes i: "board_inv g" and k: "keyPressEvent g k t = Inr (g', t')"
  shows "board_inv g'"
proof (cases k)
  case Key_Up
  with k have "g' = g\<lparr>snake := change_direction (snake g) UP\<rparr>"
    by (simp add: keyPressEvent_def)
  with i show ?thesis by (simp add: board_inv_turn)
next
  case Key_Down
  with k have "g' = g\<lparr>snake := change_direction (snake g) DOWN\<rparr>"
    by (simp add: keyPressEvent_def)
  with i show ?thesis by (simp add: board_inv_turn)
next
  case Key_Left
  with k have "g' = g\<lparr>snake := change_direction (snake g) LEFT\<rparr>"
    by (simp add: keyPressEvent_def)
  with i show ?thesis by (simp add: board_inv_turn)
next
  case Key_Right
  with k have "g' = g\<lparr>snake := change_direction (snake g) RIGHT\<rparr>"
    by (simp add: keyPressEvent_def)
  with i show ?thesis by (simp add: board_inv_turn)
next
  case Key_Space
  show ?thesis
  proof (cases "game_active g")
    case True
    with k Key_Space have "g' = g" by (simp add: keyPressEvent_def)
    with i show ?thesis by simp
  next
    case False
    with k Key_Space have "restart_game g t = Inr (g', t')" by (simp add: keyPressEvent_def)
    with i show ?thesis by (rule board_inv_restart_game)
  qed
next
  case Key_Other
  with k have "g' = g" by (simp add: keyPressEvent_def)
  with i show ?thesis by simp
qed

lemma resize_objects_inv:
  assumes r: "resize_objects g2 w h t = Some (Inr (g3, t3))"
    and d: "grid_width g2 = w" "grid_height g2 = h" and wh: "4 \<le> w" "1 \<le> h"
  shows "grid_width g3 = w \<and> grid_height g3 = h \<and> snake_grid_width (snake g3) = w
       \<and> snake_grid_height (snake g3) = h \<and> snake_valid (snake g3) w h"
proof (cases "snake_valid (snake g2) w h")
  case True
  with r obtain f2 where "g3 = g2\<lparr>snake := Snake_update_grid_size (snake g2) w h, food := f2\<rparr>"
    by (auto simp: resize_objects_def Let_def split: sum.splits option.splits prod.splits)
  with True d show ?thesis by (simp add: Snake_update_grid_size_def snake_valid_def)
next
  case False
  with r have ig: "init_game g2 t = Inr (g3, t3)" by (simp add: resize_objects_def)
  from wh d have d2: "4 \<le> grid_width g2" "1 \<le> grid_height g2" by simp_all
  from tick_inv_init_game [OF d2 ig] init_game_Inr [OF ig] d show ?thesis
    by (simp add: tick_inv_def)
qed

lemma resizeEvent_cases:
  assumes "resizeEvent g width height t = Some (Inr (g', t'))"
    and "calculate_dimensions width height = Inr (cs, gw, gh)"
  shows "g' = g \<or>
     (\<exists>g2 g3. grid_width g2 = gw \<and> grid_height g2 = gh
        \<and> resize_objects g2 gw gh t = Some (Inr (g3, t'))
        \<and> snake g' = snake g3 \<and> grid_width g' = grid_width g3
        \<and> grid_height g' = grid_height g3)"
proof (cases "cs \<noteq> cell_size g \<or> gw \<noteq> grid_width g \<or> gh \<noteq> grid_height g")
  case False
  with assms show ?thesis by (simp add: resizeEvent_def)
next
  case True
  let ?g1 = "if timer_active g then g\<lparr>timer_active := False\<rparr> else g"
  let ?g2 = "?g1\<lparr>cell_size := cs, grid_width := gw, grid_height := gh,
                  board_width := gw * cs, board_height := gh * cs\<rparr>"
  from assms True obtain g3 where
    r: "resize_objects ?g2 gw gh t = Some (Inr (g3, t'))"
    and g': "snake g' = snake g3 \<and> grid_width g' = grid_width g3 \<and> grid_height g' = grid_height g3"
    by (auto simp: resizeEvent_def Let_def split: option.splits sum.splits prod.splits if_splits)
  have "grid_width ?g2 = gw \<and> grid_height ?g2 = gh" by simp
  with r g' show ?thesis by blast
qed

lemma board_inv_resizeEvent:
  assumes i: "board_inv g" and r: "resizeEvent g width height t = Some (Inr (g', t'))"
  shows "board_inv g'"
proof -
  obtain cs gw gh where c: "calculate_dimensions width height = Inr (cs, gw, gh)"
    using calculate_dimensions_eq by blast
  from calculate_dimensions_grid [OF c] have wh: "4 \<le> gw" "1 \<le> gh"
    by (simp_all add: MIN_GRID_SIZE_def)
  from resizeEvent_cases [OF r c] show ?thesis
  proof (elim disjE exE conjE)
    assume "g' = g"
    with i show ?thesis by simp
  next
    fix g2 g3
    assume d: "grid_width g2 = gw" "grid_height g2 = gh"
      and ro: "resize_objects g2 gw gh t = Some (Inr (g3, t'))"
      and g': "snake g' = snake g3" "grid_width g' = grid_width g3"
        "grid_height g' = grid_height g3"
    from resize_objects_inv [OF ro d wh] g' wh show ?thesis
      by (simp add: board_inv_def tick_inv_def)
  qed
qed

lemma board_inv_handle_event:
  assumes "board_inv g" and "handle_event e g t = Some (Inr (g', t'))"
  shows "board_inv g'"
  using assms
  by (cases e)
    (auto simp: handle_event_def
      intro: board_inv_update_game board_inv_keyPressEvent board_inv_resizeEvent)

lemma board_inv_run:
  "board_inv g \<Longrightarrow> run es g t = Some (Inr (g', t')) \<Longrightarrow> board_inv g'"
proof (induction es arbitrary: g t)
  case Nil
  then show ?case by simp
next
  case (Cons e es)
  from Cons.prems(2) obtain g1 t1 where h: "handle_event e g t = Some (Inr (g1, t1))"
    and r: "run es g1 t1 = Some (Inr (g', t'))"
    by (auto split: option.splits sum.splits)
  from board_inv_handle_event [OF Cons.prems(1) h] have "board_inv g1" .
  from Cons.IH [OF this r] show ?case .
qed

lemma board_inv_init_game:
  assumes "4 \<le> grid_width b" "1 \<le> grid_height b" "init_game b t = Inr (g, t')"
  shows "board_inv g"
  using tick_inv_init_game [OF assms] init_game_Inr [OF assms(3)] assms(1,2)
  by (simp add: board_inv_def)

lemma init_B:
  "init_game (board_B RIGHT []) (const_tape 0)
     = Inr (board_B RIGHT [(5,5),(4,5),(3,5)], const_tape 0)"
  by (simp add: init_game_def Food_init_def generate_position_const board_B_def Snake_init_def)

lemma tick_B_right:
  assumes "0 \<le> x" "x < 9"
  shows "handle_event Tick (board_B RIGHT [(x,5),(x-1,5),(x-2,5)]) t
       = Some (Inr (board_B RIGHT [(x+1,5),(x,5),(x-1,5)], t))"
  using assms unfolding handle_event_def update_game_def
  by (simp add: board_B_def move_def check_collision_def RIGHT_def)

lemma tick_B_up:
  assumes "0 < y" "y < 10" "p \<noteq> (5, y - 1)"
  shows "handle_event Tick (board_B UP [(5,y),p,q]) t
       = Some (Inr (board_B UP [(5,y-1),(5,y),p], t))"
  using assms unfolding handle_event_def update_game_def
  by (auto simp add: board_B_def move_def check_collision_def UP_def)

lemma key_B_up:
  "handle_event (Key Key_Up) (board_B RIGHT b) t = Some (Inr (board_B UP b, t))"
  by (simp add: handle_event_def keyPressEvent_def board_B_def change_direction_def
      RIGHT_def UP_def)

lemma run_B_right:
  "run [Tick, Tick, Tick, Tick] (board_B RIGHT [(5,5),(4,5),(3,5)]) t
     = Some (Inr (board_B RIGHT [(9,5),(8,5),(7,5)], t))"
  using tick_B_right [of 5 t] tick_B_right [of 6 t] tick_B_right [of 7 t] tick_B_right [of 8 t]
  by simp

lemma run_B_up:
  "run [Key Key_Up, Tick, Tick, Tick, Tick, Tick] (board_B RIGHT [(5,5),(4,5),(3,5)]) t
     = Some (Inr (board_B UP [(5,0),(5,1),(5,2)], t))"
  using tick_B_up [where y = 5 and p = "(4,5)" and q = "(3,5)" and t = t]
    tick_B_up [where y = 4 and p = "(5,5)" and q = "(4,5)" and t = t]
    tick_B_up [where y = 3 and p = "(5,4)" and q = "(5,5)" and t = t]
    tick_B_up [where y = 2 and p = "(5,3)" and q = "(5,4)" and t = t]
    tick_B_up [where y = 1 and p = "(5,2)" and q = "(5,3)" and t = t]
  by (simp add: key_B_up)

lemma move_B_right:
  "move (snake (board_B RIGHT [(9,5),(8,5),(7,5)]))
     = Inr ((snake (board_B RIGHT [(9,5),(8,5),(7,5)]))\<lparr>body := [(10,5),(9,5),(8,5)]\<rparr>)"
  by (simp add: board_B_def move_def RIGHT_def)

lemma move_B_up:
  "move (snake (board_B UP [(5,0),(5,1),(5,2)]))
     = Inr ((snake (board_B UP [(5,0),(5,1),(5,2)]))\<lparr>body := [(5,-1),(5,0),(5,1)]\<rparr>)"
  by (simp add: board_B_def move_def UP_def)

text \<open>
  C4. The game is initialised by \<^verbatim>\<open>init_game\<close> on a grid that holds the initial
  body (at least 4 wide and 1 high; \<^verbatim>\<open>GameBoard\<close> never has a grid smaller than
  \<open>MIN_GRID_SIZE\<close> = 15 in either direction). Then any sequence of events is handled:
  ticks of the timer, with key presses (turns in all four directions, restarts) and
  resizes anywhere between them. In the board reached, every cell of the body
  satisfies \<open>0 \<le> x < grid_width\<close> and \<open>0 \<le> y < grid_height\<close>, or the game is not
  active. And when the game is active and the moved head is outside the grid, on the
  left, the right, the top or the bottom, that tick returns the board with
  \<open>game_active\<close> false (Scenario B: grid of 10 by 10, head on \<open>(9,5)\<close>, heading
  right; and the same grid left through the top edge after a turn upwards).
\<close>

theorem bounds_invariant:
  assumes "4 \<le> grid_width b" and "1 \<le> grid_height b"
    and "init_game b t0 = Inr (g0, t1)" and "run es g0 t1 = Some (Inr (g, t))"
  shows "(snake_valid (snake g) (grid_width g) (grid_height g) \<or> \<not> game_active g)
     \<and> (\<forall>t2 s1 hx hy rest.
           game_active g \<and> move (snake g) = Inr s1 \<and> body s1 = (hx, hy) # rest
           \<and> (hx < 0 \<or> grid_width g \<le> hx \<or> hy < 0 \<or> grid_height g \<le> hy) \<longrightarrow>
           update_game g t2
             = Some (Inr (g\<lparr>snake := s1, game_active := False, timer_active := False\<rparr>, t2)))"
proof -
  have "board_inv g"
    using board_inv_run [OF board_inv_init_game [OF assms(1,2,3)] assms(4)] .
  then have i: "tick_inv g" by (simp add: board_inv_def)
  have 1: "snake_valid (snake g) (grid_width g) (grid_height g) \<or> \<not> game_active g"
    using i by (auto simp: tick_inv_def)
  have 2: "update_game g t2
             = Some (Inr (g\<lparr>snake := s1, game_active := False, timer_active := False\<rparr>, t2))"
    if a: "game_active g \<and> move (snake g) = Inr s1 \<and> body s1 = (hx, hy) # rest
           \<and> (hx < 0 \<or> grid_width g \<le> hx \<or> hy < 0 \<or> grid_height g \<le> hy)"
    for t2 s1 hx hy rest
  proof -
    from a have m: "move (snake g) = Inr s1" by simp
    from move_Inr [OF m] i have "snake_grid_width s1 = grid_width g"
      "snake_grid_height s1 = grid_height g" by (auto simp: tick_inv_def)
    with a have "check_collision s1 = Inr True" by (auto simp: check_collision_def)
    with a show ?thesis by (simp add: update_game_def)
  qed
  from 1 2 show ?thesis by blast
qed

theorem bounds_invariant_witness:
  "snake_valid (snake (board_B RIGHT [(9,5),(8,5),(7,5)])) 10 10
   \<and> game_active (board_B RIGHT [(9,5),(8,5),(7,5)])
   \<and> update_game (board_B RIGHT [(9,5),(8,5),(7,5)]) (const_tape 0)
       = Some (Inr ((board_B RIGHT [(9,5),(8,5),(7,5)])
            \<lparr>snake := (snake (board_B RIGHT [(9,5),(8,5),(7,5)]))\<lparr>body := [(10,5),(9,5),(8,5)]\<rparr>,
             game_active := False, timer_active := False\<rparr>, const_tape 0))
   \<and> snake_valid (snake (board_B UP [(5,0),(5,1),(5,2)])) 10 10
   \<and> game_active (board_B UP [(5,0),(5,1),(5,2)])
   \<and> update_game (board_B UP [(5,0),(5,1),(5,2)]) (const_tape 0)
       = Some (Inr ((board_B UP [(5,0),(5,1),(5,2)])
            \<lparr>snake := (snake (board_B UP [(5,0),(5,1),(5,2)]))\<lparr>body := [(5,-1),(5,0),(5,1)]\<rparr>,
             game_active := False, timer_active := False\<rparr>, const_tape 0))"
proof -
  let ?g = "board_B RIGHT [(9,5),(8,5),(7,5)]"
  let ?u = "board_B UP [(5,0),(5,1),(5,2)]"
  have 1: "4 \<le> grid_width (board_B RIGHT [])" and 2: "1 \<le> grid_height (board_B RIGHT [])"
    by (simp_all add: board_B_def)
  note r = bounds_invariant [OF 1 2 init_B run_B_right]
  note s = bounds_invariant [OF 1 2 init_B run_B_up]
  have a: "game_active ?g" and d: "grid_width ?g = 10" "grid_height ?g = 10"
    by (simp_all add: board_B_def)
  have b: "game_active ?u" and e: "grid_width ?u = 10" "grid_height ?u = 10"
    by (simp_all add: board_B_def)
  from r [THEN conjunct1] a d have v: "snake_valid (snake ?g) 10 10" by simp
  from s [THEN conjunct1] b e have w: "snake_valid (snake ?u) 10 10" by simp
  have h: "game_active ?g \<and> move (snake ?g) = Inr ((snake ?g)\<lparr>body := [(10,5),(9,5),(8,5)]\<rparr>)
      \<and> body ((snake ?g)\<lparr>body := [(10,5),(9,5),(8,5)]\<rparr>) = (10, 5) # [(9,5),(8,5)]
      \<and> ((10::int) < 0 \<or> grid_width ?g \<le> 10 \<or> (5::int) < 0 \<or> grid_height ?g \<le> 5)"
    by (simp add: a d move_B_right)
  have k: "game_active ?u \<and> move (snake ?u) = Inr ((snake ?u)\<lparr>body := [(5,-1),(5,0),(5,1)]\<rparr>)
      \<and> body ((snake ?u)\<lparr>body := [(5,-1),(5,0),(5,1)]\<rparr>) = (5, -1) # [(5,0),(5,1)]
      \<and> ((5::int) < 0 \<or> grid_width ?u \<le> 5 \<or> (-1::int) < 0 \<or> grid_height ?u \<le> -1)"
    by (simp add: b e move_B_up)
  note x = r [THEN conjunct2, rule_format, OF h]
  note y = s [THEN conjunct2, rule_format, OF k]
  from v a x w b y show ?thesis by simp
qed

end
